theory Spec2Isabelle
  imports Complex_Main "HOL-Library.Product_Lexorder" "HOL-Library.List_Lexorder" "HOL-Library.Char_ord"
    "HOL-Library.Sublist" "HOL-Library.Multiset"
begin

section \<open>Python values and errors\<close>

text \<open>
  The functions of the repository work on pandas tables and a SQLite file. Tables are
  modelled as typed rows plus the list of column labels that are present; a cell that
  pandas shows as NaN (or SQLite as NULL) is \<open>None\<close>. Floating-point numbers are
  modelled as reals, so rounding is abstracted; the values a float division can produce
  beyond the reals (infinities, NaN) are explicit in \<open>pyfloat\<close>. An exception raised by
  the Python code is a value \<open>Inl e\<close>.
\<close>

datatype py_error = KeyError | IndexError | IntegrityError

section \<open>src/config.py\<close>

definition REQUIRED_UNIVERSE_COLUMNS :: "string list" where
  "REQUIRED_UNIVERSE_COLUMNS =
     [''instrument_id'', ''ticker'', ''name'', ''asset_class'', ''region'', ''currency'', ''eligible'']"

definition WEIGHT_TOLERANCE :: real where
  "WEIGHT_TOLERANCE = 1 / 1000"

section \<open>Tables\<close>

text \<open>A holdings table: rows of (ticker, weight, notes). A field of a row is read only
  when its column label is in \<open>h_columns\<close>.\<close>

record holding =
  h_ticker :: "string option"
  h_weight :: "real option"
  h_notes :: "string option"

record holdings_df =
  h_columns :: "string list"
  h_rows :: "holding list"

text \<open>The optional bounds table passed to \<open>validate_weights\<close>.\<close>

record bound =
  b_ticker :: "string option"
  b_min_weight :: "real option"
  b_max_weight :: "real option"

record minmax_df =
  m_columns :: "string list"
  m_rows :: "bound list"

text \<open>\<open>DataFrame.empty\<close>: true when either axis has length 0.\<close>

definition h_empty :: "holdings_df \<Rightarrow> bool" where
  "h_empty df \<longleftrightarrow> h_rows df = [] \<or> h_columns df = []"

definition m_empty :: "minmax_df \<Rightarrow> bool" where
  "m_empty df \<longleftrightarrow> m_rows df = [] \<or> m_columns df = []"

text \<open>\<open>Series.sum()\<close> skips NaN cells.\<close>

definition nan_to_zero :: "real option \<Rightarrow> real" where
  "nan_to_zero c = (case c of None \<Rightarrow> 0 | Some x \<Rightarrow> x)"

definition col_sum :: "real option list \<Rightarrow> real" where
  "col_sum cs = sum_list (map nan_to_zero cs)"

text \<open>An elementwise comparison with a NaN operand is False.\<close>

definition cell_lt :: "real option \<Rightarrow> real option \<Rightarrow> bool" where
  "cell_lt a b = (case (a, b) of (Some x, Some y) \<Rightarrow> x < y | _ \<Rightarrow> False)"

section \<open>src/analytics/validation.py\<close>

subsection \<open>validate\_weights\<close>

text \<open>\<open>holdings.merge(minmax[[ticker, min_weight, max_weight]], on=ticker, how=left)\<close>:
  every holdings row, in order, paired with the bounds of each bounds row of the same
  ticker (NaN keys match each other), or with NaN bounds when there is none.\<close>

definition merge_bounds :: "holding list \<Rightarrow> bound list \<Rightarrow> (holding \<times> real option \<times> real option) list" where
  "merge_bounds hs bs =
     concat (map (\<lambda>h.
       (case filter (\<lambda>b. b_ticker b = h_ticker h) bs of
          [] \<Rightarrow> [(h, None, None)]
        | ms \<Rightarrow> map (\<lambda>b. (h, b_min_weight b, b_max_weight b)) ms)) hs)"

definition bad_min :: "(holding \<times> real option \<times> real option) list \<Rightarrow> (holding \<times> real option \<times> real option) list" where
  "bad_min merged = filter (\<lambda>(h, lo, hi). lo \<noteq> None \<and> cell_lt (h_weight h) lo) merged"

definition bad_max :: "(holding \<times> real option \<times> real option) list \<Rightarrow> (holding \<times> real option \<times> real option) list" where
  "bad_max merged = filter (\<lambda>(h, lo, hi). hi \<noteq> None \<and> cell_lt hi (h_weight h)) merged"

text \<open>The block guarded by \<open>minmax is not None and not minmax.empty\<close>. Selecting a
  column that a table lacks raises KeyError; so does reading \<open>merged[min_weight]\<close> when
  the holdings table has a column of that name itself (pandas then suffixes both).\<close>

definition bounds_errors :: "holdings_df \<Rightarrow> minmax_df option \<Rightarrow> py_error + string list" where
  "bounds_errors holdings minmax =
     (case minmax of
        None \<Rightarrow> Inr []
      | Some mm \<Rightarrow>
          if m_empty mm then Inr []
          else if \<not> set [''ticker'', ''min_weight'', ''max_weight''] \<subseteq> set (m_columns mm) then Inl KeyError
          else if ''ticker'' \<notin> set (h_columns holdings) then Inl KeyError
          else if ''min_weight'' \<in> set (h_columns holdings) \<or> ''max_weight'' \<in> set (h_columns holdings)
            then Inl KeyError
          else
            let merged = merge_bounds (h_rows holdings) (m_rows mm) in
            Inr ((if bad_min merged \<noteq> [] then [''Some holdings are below min_weight bounds''] else [])
               @ (if bad_max merged \<noteq> [] then [''Some holdings are above max_weight bounds''] else [])))"

text \<open>\<open>fmt\<close> stands for Python's \<open>{total:.4f}\<close> formatting of a float.\<close>

definition weight_sum_errors :: "(real \<Rightarrow> string) \<Rightarrow> real \<Rightarrow> string list" where
  "weight_sum_errors fmt tot =
     (if \<bar>tot - 100\<bar> > WEIGHT_TOLERANCE then [''Weight sum must be 100, got '' @ fmt tot] else [])"

definition negative_errors :: "bool \<Rightarrow> holding list \<Rightarrow> string list" where
  "negative_errors allow_short hs =
     (if \<not> allow_short \<and> list_ex (\<lambda>h. cell_lt (h_weight h) (Some 0)) hs
      then [''Negative weights are not allowed''] else [])"

definition validate_weights ::
  "(real \<Rightarrow> string) \<Rightarrow> holdings_df \<Rightarrow> bool \<Rightarrow> minmax_df option \<Rightarrow> py_error + (bool \<times> string list)" where
  "validate_weights fmt holdings allow_short minmax =
     (if h_empty holdings then Inr (False, [''Holdings cannot be empty''])
      else if ''weight'' \<notin> set (h_columns holdings) then Inl KeyError
      else
        let tot = col_sum (map h_weight (h_rows holdings));
            errors = weight_sum_errors fmt tot @ negative_errors allow_short (h_rows holdings)
        in (case bounds_errors holdings minmax of
              Inl e \<Rightarrow> Inl e
            | Inr bs \<Rightarrow> Inr (errors @ bs = [], errors @ bs)))"

subsection \<open>validate\_universe\_schema\<close>

text \<open>A universe table as uploaded: the columns the repository reads, typed. Other
  columns may be present; only their labels matter.\<close>

record instrument =
  u_instrument_id :: "string option"
  u_ticker :: "string option"
  u_name :: "string option"
  u_asset_class :: "string option"
  u_region :: "string option"
  u_currency :: "string option"
  u_eligible :: "bool option"
  u_isin :: "string option"
  u_min_weight :: "real option"
  u_max_weight :: "real option"
  u_notes :: "string option"

record universe_df =
  u_columns :: "string list"
  u_rows :: "instrument list"

text \<open>Python's \<open>repr\<close> of a list of strings, as the f-string prints \<open>missing\<close>: each
  string in single quotes (the required column names contain no quote or escape), joined
  by a comma and a space, in square brackets.\<close>

definition py_repr_str :: "string \<Rightarrow> string" where
  "py_repr_str s = [CHR 0x27] @ s @ [CHR 0x27]"

fun py_join :: "string \<Rightarrow> string list \<Rightarrow> string" where
  "py_join sep [] = []"
| "py_join sep [x] = x"
| "py_join sep (x # y # ys) = x @ sep @ py_join sep (y # ys)"

definition py_repr_list :: "string list \<Rightarrow> string" where
  "py_repr_list xs = ''['' @ py_join '', '' (map py_repr_str xs) @ '']''"

definition missing_columns :: "universe_df \<Rightarrow> string list" where
  "missing_columns df = filter (\<lambda>c. c \<notin> set (u_columns df)) REQUIRED_UNIVERSE_COLUMNS"

text \<open>\<open>Series.duplicated().any()\<close>: some value occurs twice (NaN counts as equal to
  NaN). \<open>Series.isna().any()\<close>: some cell is NaN.\<close>

definition duplicated_any :: "'a list \<Rightarrow> bool" where
  "duplicated_any xs \<longleftrightarrow> \<not> distinct xs"

definition isna_any :: "'a option list \<Rightarrow> bool" where
  "isna_any xs \<longleftrightarrow> list_ex (\<lambda>x. x = None) xs"

definition validate_universe_schema :: "universe_df \<Rightarrow> bool \<times> string list" where
  "validate_universe_schema df =
     (let missing = missing_columns df;
          errors1 = (if missing \<noteq> [] then [''Missing required columns: '' @ py_repr_list missing] else []);
          errors2 = (if ''instrument_id'' \<in> set (u_columns df) \<and> duplicated_any (map u_instrument_id (u_rows df))
                     then [''instrument_id must be unique''] else []);
          errors3 = (if ''ticker'' \<in> set (u_columns df) \<and> isna_any (map u_ticker (u_rows df))
                     then [''ticker cannot be missing''] else []);
          errors = errors1 @ errors2 @ errors3
      in (length errors = 0, errors))"

section \<open>src/storage/db.py\<close>

subsection \<open>The SQLite file\<close>

text \<open>
  One record per table of \<open>init_db\<close>, a row per record value, rows in insertion order.
  Columns declared NOT NULL hold plain values, the others options. The three
  AUTOINCREMENT tables keep the largest key ever handed out in \<open>sqlite_sequence\<close>,
  which DELETE does not reset.
\<close>

record snapshot_row =
  s_snapshot_id :: int
  s_created_at :: string
  s_source :: string
  s_note :: string

record instrument_row =
  i_snapshot_id :: int
  i_instrument_id :: string
  i_ticker :: string
  i_name :: string
  i_asset_class :: string
  i_region :: string
  i_currency :: string
  i_eligible :: int
  i_isin :: "string option"
  i_min_weight :: "real option"
  i_max_weight :: "real option"
  i_notes :: "string option"

record basket_row =
  k_basket_id :: int
  k_basket_name :: string
  k_description :: string
  k_created_at :: string
  k_universe_snapshot_id :: int
  k_allow_short :: int
  k_max_holdings :: int

record version_row =
  v_version_id :: int
  v_basket_id :: int
  v_version_number :: int
  v_created_at :: string
  v_comment :: string

record holding_row =
  bh_version_id :: int
  bh_ticker :: string
  bh_weight :: real
  bh_notes :: "string option"

record constraint_row =
  c_basket_id :: int
  c_max_single_name :: real
  c_max_asset_class :: real

record audit_row =
  a_event_time :: string
  a_event_type :: string
  a_details :: string

record db =
  universe_snapshots :: "snapshot_row list"
  universe_instruments :: "instrument_row list"
  baskets :: "basket_row list"
  basket_versions :: "version_row list"
  basket_holdings :: "holding_row list"
  basket_constraints :: "constraint_row list"
  audit_log :: "audit_row list"
  seq_universe_snapshots :: int
  seq_baskets :: int
  seq_basket_versions :: int

definition empty_db :: db where
  "empty_db = \<lparr>universe_snapshots = [], universe_instruments = [], baskets = [],
     basket_versions = [], basket_holdings = [], basket_constraints = [], audit_log = [],
     seq_universe_snapshots = 0, seq_baskets = 0, seq_basket_versions = 0\<rparr>"

text \<open>
  A connection of Python's \<open>sqlite3\<close>: an INSERT opens a transaction, whose writes
  only the connection itself sees (\<open>pending\<close>) until \<open>commit\<close> makes them the content
  of the file (\<open>committed\<close>); \<open>rollback\<close> drops them. \<open>close\<close> gives the file as every
  later connection finds it: what was not committed is lost. A connection that an
  exception leaves behind unclosed is closed when it is collected, with the same effect.
\<close>

record conn =
  committed :: db
  pending :: db

definition get_conn :: "db \<Rightarrow> conn" where
  "get_conn s = \<lparr>committed = s, pending = s\<rparr>"

definition commit :: "conn \<Rightarrow> conn" where
  "commit c = c\<lparr>committed := pending c\<rparr>"

definition rollback :: "conn \<Rightarrow> conn" where
  "rollback c = c\<lparr>pending := committed c\<rparr>"

definition close :: "conn \<Rightarrow> db" where
  "close c = committed c"

text \<open>The key an AUTOINCREMENT table gives a new row: one more than the largest key of
  the table and the largest key ever used.\<close>

definition next_rowid :: "int \<Rightarrow> int list \<Rightarrow> int" where
  "next_rowid seq ids = fold max ids seq + 1"

text \<open>Python's \<open>str\<close> of an integer, for the f-strings of the audit log.\<close>

definition digit_char :: "nat \<Rightarrow> char" where
  "digit_char d = char_of (48 + d)"

function str_nat :: "nat \<Rightarrow> string" where
  "str_nat n = (if n < 10 then [digit_char n] else str_nat (n div 10) @ [digit_char (n mod 10)])"
  by pat_completeness auto
termination
  by (relation "measure (\<lambda>n. n)") auto

declare str_nat.simps [simp del]

definition str_int :: "int \<Rightarrow> string" where
  "str_int i = (if i < 0 then ''-'' @ str_nat (nat (- i)) else str_nat (nat i))"

subsection \<open>init\_db, log\_event, reset\_db\<close>

text \<open>\<open>CREATE TABLE IF NOT EXISTS\<close> leaves a table that exists, and its rows, as they
  are; a value of type \<open>db\<close> has the seven tables, so \<open>init_db\<close> changes nothing.\<close>

definition init_db :: "db \<Rightarrow> db" where
  "init_db s = close (commit (get_conn s))"

text \<open>\<open>now\<close> is the text of \<open>datetime.utcnow().isoformat()\<close> at the call.\<close>

definition log_event :: "string \<Rightarrow> string \<Rightarrow> string \<Rightarrow> db \<Rightarrow> db" where
  "log_event now event_type details s =
     (let c = get_conn s;
          d = pending c;
          c = c\<lparr>pending := d\<lparr>audit_log := audit_log d @
                 [\<lparr>a_event_time = now, a_event_type = event_type, a_details = details\<rparr>]\<rparr>\<rparr>
      in close (commit c))"

definition reset_db :: "db \<Rightarrow> db" where
  "reset_db s =
     (let c = get_conn s;
          d = pending c;
          c = c\<lparr>pending := d\<lparr>universe_snapshots := [], universe_instruments := [], baskets := [],
                 basket_versions := [], basket_holdings := [], basket_constraints := [],
                 audit_log := []\<rparr>\<rparr>
      in close (commit c))"

subsection \<open>Universe snapshots and baskets\<close>

text \<open>\<open>reindex(columns=cols)\<close>: a column the table lacks is filled with NaN.\<close>

definition reindexed :: "string list \<Rightarrow> string \<Rightarrow> 'a option \<Rightarrow> 'a option" where
  "reindexed cols name v = (if name \<in> set cols then v else None)"

text \<open>\<open>astype(bool).astype(int)\<close>: NaN is truthy.\<close>

definition eligible_int :: "bool option \<Rightarrow> int" where
  "eligible_int e = (case e of None \<Rightarrow> 1 | Some b \<Rightarrow> (if b then 1 else 0))"

text \<open>\<open>DataFrame.to_sql(..., if_exists=append)\<close> on a sqlite3 connection inserts the
  rows in order inside the connection's transaction; a row that breaks a NOT NULL or
  PRIMARY KEY constraint raises IntegrityError, and pandas rolls the transaction back before it
  re-raises; when all rows went in, pandas commits.\<close>

fun insert_instruments ::
  "instrument_row list \<Rightarrow> string list \<Rightarrow> int \<Rightarrow> instrument list \<Rightarrow> instrument_row list option" where
  "insert_instruments tbl cols sid [] = Some tbl"
| "insert_instruments tbl cols sid (r # rs) =
     (case (reindexed cols ''instrument_id'' (u_instrument_id r), reindexed cols ''ticker'' (u_ticker r),
            reindexed cols ''name'' (u_name r), reindexed cols ''asset_class'' (u_asset_class r),
            reindexed cols ''region'' (u_region r), reindexed cols ''currency'' (u_currency r)) of
        (Some iid, Some t, Some n, Some ac, Some rg, Some cu) \<Rightarrow>
          if list_ex (\<lambda>x. i_snapshot_id x = sid \<and> i_instrument_id x = iid) tbl then None
          else insert_instruments
                 (tbl @ [\<lparr>i_snapshot_id = sid, i_instrument_id = iid, i_ticker = t, i_name = n,
                           i_asset_class = ac, i_region = rg, i_currency = cu,
                           i_eligible = eligible_int (u_eligible r),
                           i_isin = reindexed cols ''isin'' (u_isin r),
                           i_min_weight = reindexed cols ''min_weight'' (u_min_weight r),
                           i_max_weight = reindexed cols ''max_weight'' (u_max_weight r),
                           i_notes = reindexed cols ''notes'' (u_notes r)\<rparr>])
                 cols sid rs
      | _ \<Rightarrow> None)"

definition to_sql_universe_instruments :: "conn \<Rightarrow> string list \<Rightarrow> int \<Rightarrow> instrument list \<Rightarrow> conn \<times> (py_error + unit)" where
  "to_sql_universe_instruments c cols sid payload =
     (case insert_instruments (universe_instruments (pending c)) cols sid payload of
        None \<Rightarrow> (rollback c, Inl IntegrityError)
      | Some tbl \<Rightarrow> (commit (c\<lparr>pending := (pending c)\<lparr>universe_instruments := tbl\<rparr>\<rparr>), Inr ()))"

definition create_universe_snapshot ::
  "string \<Rightarrow> string \<Rightarrow> db \<Rightarrow> universe_df \<Rightarrow> string \<Rightarrow> string \<Rightarrow> db \<times> (py_error + int)" where
  "create_universe_snapshot now now_log s df source note =
     (let c = get_conn s;
          d = pending c;
          snapshot_id = next_rowid (seq_universe_snapshots d) (map s_snapshot_id (universe_snapshots d));
          c = c\<lparr>pending := d\<lparr>universe_snapshots := universe_snapshots d @
                   [\<lparr>s_snapshot_id = snapshot_id, s_created_at = now, s_source = source, s_note = note\<rparr>],
                 seq_universe_snapshots := snapshot_id\<rparr>\<rparr>
      in if ''eligible'' \<notin> set (u_columns df) then (close c, Inl KeyError)
         else (case to_sql_universe_instruments c (u_columns df) snapshot_id (u_rows df) of
                 (c, Inl e) \<Rightarrow> (close c, Inl e)
               | (c, Inr _) \<Rightarrow>
                   (log_event now_log ''universe_snapshot_created'' (''snapshot_id='' @ str_int snapshot_id)
                      (close (commit c)),
                    Inr snapshot_id)))"

definition list_universe_snapshots :: "db \<Rightarrow> snapshot_row list" where
  "list_universe_snapshots s = sort_key (\<lambda>r. - s_snapshot_id r) (universe_snapshots s)"

definition get_universe :: "db \<Rightarrow> int \<Rightarrow> instrument_row list" where
  "get_universe s snapshot_id =
     sort_key i_ticker (filter (\<lambda>r. i_snapshot_id r = snapshot_id) (universe_instruments s))"

definition create_basket ::
  "string \<Rightarrow> string \<Rightarrow> db \<Rightarrow> string \<Rightarrow> string \<Rightarrow> int \<Rightarrow> bool \<Rightarrow> int \<Rightarrow> db \<times> int" where
  "create_basket now now_log s name description universe_snapshot_id allow_short max_holdings =
     (let c = get_conn s;
          d = pending c;
          basket_id = next_rowid (seq_baskets d) (map k_basket_id (baskets d));
          c = c\<lparr>pending := d\<lparr>baskets := baskets d @
                   [\<lparr>k_basket_id = basket_id, k_basket_name = name, k_description = description,
                     k_created_at = now, k_universe_snapshot_id = universe_snapshot_id,
                     k_allow_short = (if allow_short then 1 else 0), k_max_holdings = max_holdings\<rparr>],
                 seq_baskets := basket_id\<rparr>\<rparr>
      in (log_event now_log ''basket_created'' (''basket_id='' @ str_int basket_id) (close (commit c)),
          basket_id))"

definition list_baskets :: "db \<Rightarrow> basket_row list" where
  "list_baskets s = sort_key (\<lambda>r. - k_basket_id r) (baskets s)"

subsection \<open>Basket versions\<close>

text \<open>\<open>SELECT COALESCE(MAX(version_number),0)+1 FROM basket_versions WHERE basket_id=?\<close>:
  MAX over no row is NULL.\<close>

definition sql_max :: "int list \<Rightarrow> int option" where
  "sql_max xs = (case xs of [] \<Rightarrow> None | x # ys \<Rightarrow> Some (fold max ys x))"

definition coalesce :: "int option \<Rightarrow> int \<Rightarrow> int" where
  "coalesce v d = (case v of None \<Rightarrow> d | Some x \<Rightarrow> x)"

definition next_version_number :: "db \<Rightarrow> int \<Rightarrow> int" where
  "next_version_number d basket_id =
     coalesce (sql_max (map v_version_number (filter (\<lambda>r. v_basket_id r = basket_id) (basket_versions d)))) 0 + 1"

fun insert_holdings :: "holding_row list \<Rightarrow> int \<Rightarrow> holding list \<Rightarrow> holding_row list option" where
  "insert_holdings tbl vid [] = Some tbl"
| "insert_holdings tbl vid (h # hs) =
     (case (h_ticker h, h_weight h) of
        (Some t, Some w) \<Rightarrow>
          if list_ex (\<lambda>x. bh_version_id x = vid \<and> bh_ticker x = t) tbl then None
          else insert_holdings
                 (tbl @ [\<lparr>bh_version_id = vid, bh_ticker = t, bh_weight = w, bh_notes = h_notes h\<rparr>]) vid hs
      | _ \<Rightarrow> None)"

definition to_sql_basket_holdings :: "conn \<Rightarrow> int \<Rightarrow> holding list \<Rightarrow> conn \<times> (py_error + unit)" where
  "to_sql_basket_holdings c vid payload =
     (case insert_holdings (basket_holdings (pending c)) vid payload of
        None \<Rightarrow> (rollback c, Inl IntegrityError)
      | Some tbl \<Rightarrow> (commit (c\<lparr>pending := (pending c)\<lparr>basket_holdings := tbl\<rparr>\<rparr>), Inr ()))"

text \<open>The result is the file after the call and either the exception or the new
  version_id. The version row is written first, in the connection's transaction; the
  selection of the three columns raises KeyError when one is absent.\<close>

definition create_basket_version ::
  "string \<Rightarrow> string \<Rightarrow> db \<Rightarrow> int \<Rightarrow> holdings_df \<Rightarrow> string \<Rightarrow> db \<times> (py_error + int)" where
  "create_basket_version now now_log s basket_id holdings comment =
     (let c = get_conn s;
          d = pending c;
          version_number = next_version_number d basket_id;
          version_id = next_rowid (seq_basket_versions d) (map v_version_id (basket_versions d));
          c = c\<lparr>pending := d\<lparr>basket_versions := basket_versions d @
                   [\<lparr>v_version_id = version_id, v_basket_id = basket_id, v_version_number = version_number,
                     v_created_at = now, v_comment = comment\<rparr>],
                 seq_basket_versions := version_id\<rparr>\<rparr>
      in if \<not> set [''ticker'', ''weight'', ''notes''] \<subseteq> set (h_columns holdings) then (close c, Inl KeyError)
         else (case to_sql_basket_holdings c version_id (h_rows holdings) of
                 (c, Inl e) \<Rightarrow> (close c, Inl e)
               | (c, Inr _) \<Rightarrow>
                   (log_event now_log ''basket_version_created''
                      (''basket_id='' @ str_int basket_id @ '',version_id='' @ str_int version_id)
                      (close (commit c)),
                    Inr version_id)))"

text \<open>\<open>ORDER BY ... DESC\<close>; rows with equal keys are kept in insertion order here (SQL
  leaves their order open).\<close>

definition list_versions :: "db \<Rightarrow> int \<Rightarrow> version_row list" where
  "list_versions s basket_id =
     sort_key (\<lambda>r. - v_version_number r) (filter (\<lambda>r. v_basket_id r = basket_id) (basket_versions s))"

definition get_holdings_rows :: "db \<Rightarrow> int \<Rightarrow> holding_row list" where
  "get_holdings_rows s version_id =
     sort_key (\<lambda>r. - bh_weight r) (filter (\<lambda>r. bh_version_id r = version_id) (basket_holdings s))"

text \<open>The table \<open>read_sql_query\<close> returns for \<open>SELECT *\<close>: the four columns of
  basket_holdings (the version_id cells are not kept in the typed row).\<close>

definition frame_row :: "holding_row \<Rightarrow> holding" where
  "frame_row r = \<lparr>h_ticker = Some (bh_ticker r), h_weight = Some (bh_weight r), h_notes = bh_notes r\<rparr>"

definition get_holdings :: "db \<Rightarrow> int \<Rightarrow> holdings_df" where
  "get_holdings s version_id =
     \<lparr>h_columns = [''version_id'', ''ticker'', ''weight'', ''notes''],
      h_rows = map frame_row (get_holdings_rows s version_id)\<rparr>"

subsection \<open>Constraints\<close>

definition save_constraints :: "db \<Rightarrow> int \<Rightarrow> real \<Rightarrow> real \<Rightarrow> db" where
  "save_constraints s basket_id max_single_name max_asset_class =
     (let c = get_conn s;
          d = pending c;
          new = \<lparr>c_basket_id = basket_id, c_max_single_name = max_single_name,
                 c_max_asset_class = max_asset_class\<rparr>;
          tbl = (if list_ex (\<lambda>r. c_basket_id r = basket_id) (basket_constraints d)
                 then map (\<lambda>r. if c_basket_id r = basket_id then new else r) (basket_constraints d)
                 else basket_constraints d @ [new]);
          c = c\<lparr>pending := d\<lparr>basket_constraints := tbl\<rparr>\<rparr>
      in close (commit c))"

definition get_constraints :: "db \<Rightarrow> int \<Rightarrow> constraint_row list" where
  "get_constraints s basket_id = filter (\<lambda>r. c_basket_id r = basket_id) (basket_constraints s)"

subsection \<open>Sequences of storage operations\<close>

text \<open>Every function of db.py as an operation on the file; \<open>apply_op\<close> gives the file
  after the call (the reads leave it as it is).\<close>

datatype op =
    Init_db
  | Log_event string string string
  | Create_universe_snapshot string string universe_df string string
  | List_universe_snapshots
  | Get_universe int
  | Create_basket string string string string int bool int
  | List_baskets
  | Create_basket_version string string int holdings_df string
  | List_versions int
  | Get_holdings int
  | Save_constraints int real real
  | Get_constraints int
  | Reset_db

fun apply_op :: "op \<Rightarrow> db \<Rightarrow> db" where
  "apply_op Init_db s = init_db s"
| "apply_op (Log_event now event_type details) s = log_event now event_type details s"
| "apply_op (Create_universe_snapshot now now_log df source note) s =
     fst (create_universe_snapshot now now_log s df source note)"
| "apply_op List_universe_snapshots s = s"
| "apply_op (Get_universe snapshot_id) s = s"
| "apply_op (Create_basket now now_log name description usid allow_short max_holdings) s =
     fst (create_basket now now_log s name description usid allow_short max_holdings)"
| "apply_op List_baskets s = s"
| "apply_op (Create_basket_version now now_log basket_id holdings comment) s =
     fst (create_basket_version now now_log s basket_id holdings comment)"
| "apply_op (List_versions basket_id) s = s"
| "apply_op (Get_holdings version_id) s = s"
| "apply_op (Save_constraints basket_id max_single_name max_asset_class) s =
     save_constraints s basket_id max_single_name max_asset_class"
| "apply_op (Get_constraints basket_id) s = s"
| "apply_op Reset_db s = reset_db s"

definition run_ops :: "op list \<Rightarrow> db \<Rightarrow> db" where
  "run_ops ops s = fold apply_op ops s"

text \<open>What SQLite maintains by itself on a file that only db.py writes: keys of
  basket_versions and version_ids of basket_holdings never exceed the sequence, and
  (version_id, ticker) is a key of basket_holdings.\<close>

definition store_ok :: "db \<Rightarrow> bool" where
  "store_ok s \<longleftrightarrow>
     (\<forall>r\<in>set (basket_versions s). v_version_id r \<le> seq_basket_versions s)
   \<and> (\<forall>r\<in>set (basket_holdings s). bh_version_id r \<le> seq_basket_versions s)
   \<and> distinct (map (\<lambda>r. (bh_version_id r, bh_ticker r)) (basket_holdings s))"

text \<open>The row that \<open>create_basket_version\<close> inserts into basket_versions, named for
  the statements below.\<close>

definition new_version_row :: "string \<Rightarrow> db \<Rightarrow> int \<Rightarrow> string \<Rightarrow> version_row" where
  "new_version_row now s basket_id comment =
     \<lparr>v_version_id = next_rowid (seq_basket_versions s) (map v_version_id (basket_versions s)),
      v_basket_id = basket_id, v_version_number = next_version_number s basket_id,
      v_created_at = now, v_comment = comment\<rparr>"


text \<open>The part of the file that reads of versions depend on, and what it means for a
  later file to have only added versions to an earlier one: rows appended, with keys
  above the earlier sequence.\<close>

definition versions_part :: "db \<Rightarrow> version_row list \<times> holding_row list \<times> int" where
  "versions_part s = (basket_versions s, basket_holdings s, seq_basket_versions s)"

definition grows :: "db \<Rightarrow> db \<Rightarrow> bool" where
  "grows s s' \<longleftrightarrow>
     (\<exists>vs hs. basket_versions s' = basket_versions s @ vs
           \<and> basket_holdings s' = basket_holdings s @ hs
           \<and> (\<forall>r\<in>set vs. seq_basket_versions s < v_version_id r)
           \<and> (\<forall>r\<in>set hs. seq_basket_versions s < bh_version_id r))
     \<and> seq_basket_versions s \<le> seq_basket_versions s'"

section \<open>src/app.py: export and import of a basket\<close>




section \<open>src/analytics/signals.py\<close>

subsection \<open>Floating-point results\<close>

text \<open>
  A float as pandas computes with it: a real number, an infinity, or NaN. Rounding and the
  sign of zero are not modelled; division by zero gives an infinity (NaN for 0/0), as
  numpy does, and raises nothing.
\<close>

datatype pyfloat = NaN | NegInf | Fin real | PosInf

fun fneg :: "pyfloat \<Rightarrow> pyfloat" where
  "fneg NaN = NaN"
| "fneg NegInf = PosInf"
| "fneg (Fin x) = Fin (- x)"
| "fneg PosInf = NegInf"

fun fadd :: "pyfloat \<Rightarrow> pyfloat \<Rightarrow> pyfloat" where
  "fadd (Fin x) (Fin y) = Fin (x + y)"
| "fadd NaN b = NaN"
| "fadd a NaN = NaN"
| "fadd PosInf NegInf = NaN"
| "fadd NegInf PosInf = NaN"
| "fadd PosInf b = PosInf"
| "fadd a PosInf = PosInf"
| "fadd NegInf b = NegInf"
| "fadd a NegInf = NegInf"

definition fsub :: "pyfloat \<Rightarrow> pyfloat \<Rightarrow> pyfloat" where
  "fsub a b = fadd a (fneg b)"

fun fsign :: "pyfloat \<Rightarrow> real" where
  "fsign NaN = 0"
| "fsign NegInf = - 1"
| "fsign (Fin x) = sgn x"
| "fsign PosInf = 1"

definition inf_of_sign :: "real \<Rightarrow> pyfloat" where
  "inf_of_sign g = (if g = 0 then NaN else if 0 < g then PosInf else NegInf)"

fun fmul :: "pyfloat \<Rightarrow> pyfloat \<Rightarrow> pyfloat" where
  "fmul (Fin x) (Fin y) = Fin (x * y)"
| "fmul NaN b = NaN"
| "fmul a NaN = NaN"
| "fmul a b = inf_of_sign (fsign a * fsign b)"

fun fdiv :: "pyfloat \<Rightarrow> pyfloat \<Rightarrow> pyfloat" where
  "fdiv (Fin x) (Fin y) = (if y = 0 then inf_of_sign x else Fin (x / y))"
| "fdiv NaN b = NaN"
| "fdiv a NaN = NaN"
| "fdiv (Fin x) b = Fin 0"
| "fdiv a (Fin y) = (if 0 \<le> y then a else fneg a)"
| "fdiv a b = NaN"

text \<open>\<open>a > b\<close> elementwise: False when an operand is NaN.\<close>

fun frank :: "pyfloat \<Rightarrow> nat \<times> real" where
  "frank NaN = (0, 0)"
| "frank NegInf = (1, 0)"
| "frank (Fin x) = (2, x)"
| "frank PosInf = (3, 0)"

definition fgt :: "pyfloat \<Rightarrow> pyfloat \<Rightarrow> bool" where
  "fgt a b \<longleftrightarrow> a \<noteq> NaN \<and> b \<noteq> NaN \<and> frank b < frank a"

text \<open>\<open>fillna(0)\<close> on a float; \<open>Series.sum()\<close> (NaN cells skipped).\<close>

definition fillna0 :: "pyfloat \<Rightarrow> pyfloat" where
  "fillna0 a = (if a = NaN then Fin 0 else a)"


text \<open>\<open>sort_values(col, ascending=False)\<close>: largest first, NaN last; the key below is
  increasing in that order. Rows with equal keys are kept in their order here (pandas
  leaves it open).\<close>

fun desc_key :: "pyfloat \<Rightarrow> nat \<times> real" where
  "desc_key PosInf = (0, 0)"
| "desc_key (Fin x) = (1, - x)"
| "desc_key NegInf = (2, 0)"
| "desc_key NaN = (3, 0)"

subsection \<open>Price tables\<close>

text \<open>A price table: one column per ticker, one row per date, oldest first; the cells
  are prices (no missing cell inside the table). \<open>column t j\<close> is the j-th series.\<close>

record price_df =
  p_columns :: "string list"
  p_rows :: "real list list"

definition column :: "price_df \<Rightarrow> nat \<Rightarrow> real list" where
  "column t j = map (\<lambda>r. r ! j) (p_rows t)"

text \<open>The last row of \<open>pct_change(n)\<close>, that is \<open>x / x.shift(n) - 1\<close>: NaN when the series
  has no row n places before the last. The last row of \<open>rolling(n).mean()\<close>: NaN when
  there are fewer than n rows.\<close>

definition pct_change_last :: "nat \<Rightarrow> real list \<Rightarrow> pyfloat" where
  "pct_change_last n xs =
     (if length xs \<le> n then NaN
      else fsub (fdiv (Fin (last xs)) (Fin (xs ! (length xs - 1 - n)))) (Fin 1))"

definition rolling_mean_last :: "nat \<Rightarrow> real list \<Rightarrow> pyfloat" where
  "rolling_mean_last n xs =
     (if length xs < n then NaN else Fin (sum_list (drop (length xs - n) xs) / real n))"

subsection \<open>momentum\_signal, trend\_signal, composite\_signal\<close>

text \<open>\<open>.iloc[-1]\<close> on a table without rows raises IndexError.\<close>

definition mom_12_1_of :: "real list \<Rightarrow> pyfloat" where
  "mom_12_1_of xs = fsub (pct_change_last 252 xs) (pct_change_last 21 xs)"

definition mom_6m_of :: "real list \<Rightarrow> pyfloat" where
  "mom_6m_of xs = pct_change_last 126 xs"

definition trend_of :: "real list \<Rightarrow> int" where
  "trend_of xs = (if fgt (rolling_mean_last 50 xs) (rolling_mean_last 200 xs) then 1 else 0)"

definition momentum_signal :: "price_df \<Rightarrow> py_error + (string \<times> pyfloat \<times> pyfloat) list" where
  "momentum_signal price_df =
     (if p_rows price_df = [] then Inl IndexError
      else Inr (map (\<lambda>j. (p_columns price_df ! j, mom_12_1_of (column price_df j), mom_6m_of (column price_df j)))
                  [0 ..< length (p_columns price_df)]))"

definition trend_signal :: "price_df \<Rightarrow> py_error + (string \<times> int) list" where
  "trend_signal price_df =
     (if p_rows price_df = [] then Inl IndexError
      else Inr (map (\<lambda>j. (p_columns price_df ! j, trend_of (column price_df j)))
                  [0 ..< length (p_columns price_df)]))"

record signal_row =
  g_ticker :: string
  g_mom_12_1 :: pyfloat
  g_mom_6m :: pyfloat
  g_trend :: int
  g_score :: pyfloat

text \<open>\<open>out[[mom_12_1, mom_6m]].mean(axis=1) + 0.05 * out[trend]\<close>.\<close>

definition score_of :: "pyfloat \<Rightarrow> pyfloat \<Rightarrow> int \<Rightarrow> pyfloat" where
  "score_of m12 m6 tr = fadd (fdiv (fadd m12 m6) (Fin 2)) (fmul (Fin (5 / 100)) (Fin (real_of_int tr)))"

definition make_signal_row :: "(string \<times> pyfloat \<times> pyfloat) \<times> (string \<times> int) \<Rightarrow> signal_row" where
  "make_signal_row x =
     (case x of ((tk, m12, m6), (tk', tr)) \<Rightarrow>
        \<lparr>g_ticker = tk, g_mom_12_1 = fillna0 m12, g_mom_6m = fillna0 m6, g_trend = tr,
         g_score = score_of (fillna0 m12) (fillna0 m6) tr\<rparr>)"

text \<open>The trend column is attached by ticker label; both tables list the tickers of the
  price table in its column order, so the rows pair up by position.\<close>

definition composite_signal :: "price_df \<Rightarrow> py_error + signal_row list" where
  "composite_signal price_df =
     (case momentum_signal price_df of
        Inl e \<Rightarrow> Inl e
      | Inr mom \<Rightarrow>
          (case trend_signal price_df of
             Inl e \<Rightarrow> Inl e
           | Inr tr \<Rightarrow> Inr (sort_key (\<lambda>r. desc_key (g_score r)) (map make_signal_row (zip mom tr)))))"

subsection \<open>suggest\_reweight\<close>

text \<open>The score table: its index holds the tickers, \<open>sc_rows\<close> pairs each index label
  with the cell of the score column.\<close>

record scores_df =
  sc_columns :: "string list"
  sc_rows :: "(string \<times> pyfloat) list"

definition scores_of :: "signal_row list \<Rightarrow> scores_df" where
  "scores_of out = \<lparr>sc_columns = [''mom_12_1'', ''mom_6m'', ''trend'', ''score''],
                    sc_rows = map (\<lambda>r. (g_ticker r, g_score r)) out\<rparr>"









text \<open>The row of \<open>composite_signal\<close> for the j-th ticker, before sorting.\<close>

definition signal_of :: "price_df \<Rightarrow> nat \<Rightarrow> signal_row" where
  "signal_of t j =
     make_signal_row ((p_columns t ! j, mom_12_1_of (column t j), mom_6m_of (column t j)),
                      (p_columns t ! j, trend_of (column t j)))"

section \<open>Properties of validate\_weights\<close>













text \<open>
  Claim C8. For every empty holdings table (no rows, or no columns), validate_weights
  returns ok = False with exactly one error, the fixed message, whatever allow_short and
  the bounds table are: none of the other checks is evaluated (not even the lookup of the
  weight column).
\<close>

theorem validate_weights_empty:
  "h_empty holdings \<Longrightarrow>
     validate_weights fmt holdings allow_short minmax = Inr (False, [''Holdings cannot be empty''])"
  by (simp add: validate_weights_def)

theorem validate_weights_empty_witness:
  "h_empty \<lparr>h_columns = [''ticker''], h_rows = []\<rparr>
   \<and> validate_weights (\<lambda>x. ''?'') \<lparr>h_columns = [''ticker''], h_rows = []\<rparr> True
        (Some \<lparr>m_columns = [], m_rows = []\<rparr>)
      = Inr (False, [''Holdings cannot be empty''])"
proof -
  have e: "h_empty \<lparr>h_columns = [''ticker''], h_rows = []\<rparr>"
    by (simp add: h_empty_def)
  from validate_weights_empty [OF e] e show ?thesis by blast
qed

section \<open>Properties of validate\_universe\_schema\<close>

lemma sublist_py_join:
  "x \<in> set xs \<Longrightarrow> sublist x (py_join sep xs)"
proof (induction sep xs rule: py_join.induct)
  case (1 sep)
  then show ?case by simp
next
  case (2 sep y)
  then show ?case by simp
next
  case (3 sep y z zs)
  show ?case
  proof (cases "x = y")
    case True
    then show ?thesis by simp
  next
    case False
    with 3 have "sublist x (py_join sep (z # zs))" by simp
    then show ?thesis
      by (simp add: sublist_append)
  qed
qed

lemma sublist_py_repr_list:
  assumes "c \<in> set xs"
  shows "sublist c (py_repr_list xs)"
proof -
  have "sublist c (py_repr_str c)"
    unfolding py_repr_str_def by (rule sublist_appendI)
  moreover have "sublist (py_repr_str c) (py_join '', '' (map py_repr_str xs))"
    using assms by (intro sublist_py_join) simp
  ultimately have "sublist c (py_join '', '' (map py_repr_str xs))"
    by (rule sublist_order.order_trans)
  moreover have "sublist (py_join '', '' (map py_repr_str xs)) (py_repr_list xs)"
    unfolding py_repr_list_def by (rule sublist_appendI)
  ultimately show ?thesis
    by (rule sublist_order.order_trans)
qed

lemma isna_any_map:
  "isna_any (map f xs) \<longleftrightarrow> (\<exists>r\<in>set xs. f r = None)"
  by (induction xs) (simp_all add: isna_any_def)

lemma missing_columns_iff:
  "c \<in> set (missing_columns df) \<longleftrightarrow> c \<in> set REQUIRED_UNIVERSE_COLUMNS \<and> c \<notin> set (u_columns df)"
  by (auto simp: missing_columns_def)

lemma missing_columns_empty:
  "missing_columns df = [] \<longleftrightarrow> set REQUIRED_UNIVERSE_COLUMNS \<subseteq> set (u_columns df)"
  by (auto simp: missing_columns_def filter_empty_conv)

text \<open>
  Claim C9. validate_universe_schema runs its three checks one after the other and keeps
  every failure: the combined message listing the missing required columns is present
  exactly when some required column is missing (and the list it prints is exactly the
  required columns the table lacks), the uniqueness message exactly when the
  instrument_id column is there and holds a value twice, the ticker message exactly when
  the ticker column is there and holds a NaN; the number of messages is the number of
  failed checks; ok holds exactly when there is no message; and a table without the
  region column gets ok = False and a message that contains the text region.
\<close>

theorem validate_universe_schema_accumulates:
  assumes "validate_universe_schema df = (ok, errors)"
  shows "(ok \<longleftrightarrow> errors = [])
       \<and> ((''Missing required columns: '' @ py_repr_list (missing_columns df)) \<in> set errors
            \<longleftrightarrow> \<not> set REQUIRED_UNIVERSE_COLUMNS \<subseteq> set (u_columns df))
       \<and> set (missing_columns df) = set REQUIRED_UNIVERSE_COLUMNS - set (u_columns df)
       \<and> (''instrument_id must be unique'' \<in> set errors
            \<longleftrightarrow> ''instrument_id'' \<in> set (u_columns df) \<and> \<not> distinct (map u_instrument_id (u_rows df)))
       \<and> (''ticker cannot be missing'' \<in> set errors
            \<longleftrightarrow> ''ticker'' \<in> set (u_columns df) \<and> (\<exists>r\<in>set (u_rows df). u_ticker r = None))
       \<and> length errors =
            (if set REQUIRED_UNIVERSE_COLUMNS \<subseteq> set (u_columns df) then 0 else 1)
          + (if ''instrument_id'' \<in> set (u_columns df) \<and> \<not> distinct (map u_instrument_id (u_rows df)) then 1 else 0)
          + (if ''ticker'' \<in> set (u_columns df) \<and> (\<exists>r\<in>set (u_rows df). u_ticker r = None) then 1 else 0)
       \<and> (''region'' \<notin> set (u_columns df)
            \<longrightarrow> \<not> ok \<and> (\<exists>e\<in>set errors. sublist ''region'' e))"
proof -
  define e1 where "e1 = (if missing_columns df \<noteq> []
      then [''Missing required columns: '' @ py_repr_list (missing_columns df)] else [])"
  define e2 where "e2 = (if ''instrument_id'' \<in> set (u_columns df) \<and> duplicated_any (map u_instrument_id (u_rows df))
                     then [''instrument_id must be unique''] else [])"
  define e3 where "e3 = (if ''ticker'' \<in> set (u_columns df) \<and> isna_any (map u_ticker (u_rows df))
                     then [''ticker cannot be missing''] else [])"
  from assms have errs: "errors = e1 @ e2 @ e3"
    by (auto simp: validate_universe_schema_def Let_def e1_def e2_def e3_def)
  from assms have "ok = (length (e1 @ e2 @ e3) = 0)"
    by (auto simp: validate_universe_schema_def Let_def e1_def e2_def e3_def)
  then have ok: "ok = (errors = [])"
    by (simp add: errs)
  have na: "isna_any (map u_ticker (u_rows df)) \<longleftrightarrow> (\<exists>r\<in>set (u_rows df). u_ticker r = None)"
    by (rule isna_any_map)
  have c1: "ok \<longleftrightarrow> errors = []" by (simp add: ok)
  have c2: "(''Missing required columns: '' @ py_repr_list (missing_columns df)) \<in> set errors
            \<longleftrightarrow> \<not> set REQUIRED_UNIVERSE_COLUMNS \<subseteq> set (u_columns df)"
    unfolding errs e1_def e2_def e3_def missing_columns_empty [symmetric] by simp
  have c3: "set (missing_columns df) = set REQUIRED_UNIVERSE_COLUMNS - set (u_columns df)"
    by (auto simp: missing_columns_iff)
  have c4: "''instrument_id must be unique'' \<in> set errors
            \<longleftrightarrow> ''instrument_id'' \<in> set (u_columns df) \<and> \<not> distinct (map u_instrument_id (u_rows df))"
    unfolding errs e1_def e2_def e3_def by (simp add: duplicated_any_def)
  have c5: "''ticker cannot be missing'' \<in> set errors
            \<longleftrightarrow> ''ticker'' \<in> set (u_columns df) \<and> (\<exists>r\<in>set (u_rows df). u_ticker r = None)"
    unfolding errs e1_def e2_def e3_def by (simp add: na)
  have c6: "length errors =
            (if set REQUIRED_UNIVERSE_COLUMNS \<subseteq> set (u_columns df) then 0 else 1)
          + (if ''instrument_id'' \<in> set (u_columns df) \<and> \<not> distinct (map u_instrument_id (u_rows df)) then 1 else 0)
          + (if ''ticker'' \<in> set (u_columns df) \<and> (\<exists>r\<in>set (u_rows df). u_ticker r = None) then 1 else 0)"
    unfolding errs e1_def e2_def e3_def missing_columns_empty [symmetric]
    by (simp add: na duplicated_any_def)
  have c7: "\<not> ok \<and> (\<exists>e\<in>set errors. sublist ''region'' e)" if "''region'' \<notin> set (u_columns df)"
  proof -
    have m: "''region'' \<in> set (missing_columns df)"
      using that by (simp add: missing_columns_iff REQUIRED_UNIVERSE_COLUMNS_def)
    then have ne: "missing_columns df \<noteq> []" by auto
    have "sublist ''region'' (''Missing required columns: '' @ py_repr_list (missing_columns df))"
      using sublist_py_repr_list [OF m] sublist_append_leftI
      by (rule sublist_order.order_trans)
    moreover have "(''Missing required columns: '' @ py_repr_list (missing_columns df)) \<in> set errors"
      using ne by (simp add: errs e1_def)
    ultimately show ?thesis
      using ok by auto
  qed
  from c1 c2 c3 c4 c5 c6 c7 show ?thesis by blast
qed

theorem validate_universe_schema_accumulates_witness:
  "validate_universe_schema
      \<lparr>u_columns = [''instrument_id'', ''ticker'', ''name'', ''asset_class'', ''currency'', ''eligible''],
       u_rows = []\<rparr>
    = (False, [''Missing required columns: ['' @ [CHR 0x27] @ ''region'' @ [CHR 0x27] @ '']''])
   \<and> sublist ''region'' (''Missing required columns: ['' @ [CHR 0x27] @ ''region'' @ [CHR 0x27] @ '']'')"
proof -
  let ?df = "\<lparr>u_columns = [''instrument_id'', ''ticker'', ''name'', ''asset_class'', ''currency'', ''eligible''],
       u_rows = []\<rparr>"
  let ?m = "''Missing required columns: ['' @ [CHR 0x27] @ ''region'' @ [CHR 0x27] @ '']''"
  have v: "validate_universe_schema ?df = (False, [?m])"
    by (simp add: validate_universe_schema_def missing_columns_def REQUIRED_UNIVERSE_COLUMNS_def
        py_repr_list_def py_repr_str_def duplicated_any_def isna_any_def)
  have r: "''region'' \<notin> set (u_columns ?df)" by simp
  from validate_universe_schema_accumulates [OF v] r
  have "\<exists>e\<in>set [?m]. sublist ''region'' e" by blast
  then have "sublist ''region'' ?m" by simp
  with v show ?thesis by blast
qed

section \<open>Properties of the storage layer\<close>

subsection \<open>Keys and version numbers\<close>

lemma fold_max_ge: "(seq :: int) \<le> fold max ids seq"
  by (induction ids arbitrary: seq) (auto intro: order_trans [OF max.cobounded2])

lemma fold_max_mem: "i \<in> set ids \<Longrightarrow> (i :: int) \<le> fold max ids seq"
proof (induction ids arbitrary: seq)
  case Nil
  then show ?case by simp
next
  case (Cons a ids)
  show ?case
  proof (cases "i = a")
    case True
    have "a \<le> max a seq" by simp
    also have "\<dots> \<le> fold max ids (max a seq)" by (rule fold_max_ge)
    finally show ?thesis using True by simp
  next
    case False
    with Cons show ?thesis by simp
  qed
qed

lemma next_rowid_gt_seq: "seq < next_rowid seq ids"
  using fold_max_ge [of seq ids] by (simp add: next_rowid_def)

lemma next_rowid_gt_mem: "i \<in> set ids \<Longrightarrow> i < next_rowid seq ids"
  using fold_max_mem [of i ids seq] by (simp add: next_rowid_def)

lemma sql_max_Max: "sql_max xs = (if xs = [] then None else Some (Max (set xs)))"
proof (cases xs)
  case Nil
  then show ?thesis by (simp add: sql_max_def)
next
  case (Cons a list)
  have "fold max list a = Max (set (a # list))"
    by (rule Max.set_eq_fold [symmetric])
  then show ?thesis by (simp add: sql_max_def Cons)
qed

lemma next_version_number_eq:
  "next_version_number d basket_id =
     (if v_version_number ` {r \<in> set (basket_versions d). v_basket_id r = basket_id} = {} then 1
      else 1 + Max (v_version_number ` {r \<in> set (basket_versions d). v_basket_id r = basket_id}))"
proof -
  have s: "set (map v_version_number (filter (\<lambda>r. v_basket_id r = basket_id) (basket_versions d)))
      = v_version_number ` {r \<in> set (basket_versions d). v_basket_id r = basket_id}"
    by auto
  have e: "map v_version_number (filter (\<lambda>r. v_basket_id r = basket_id) (basket_versions d)) = []
      \<longleftrightarrow> v_version_number ` {r \<in> set (basket_versions d). v_basket_id r = basket_id} = {}"
    by (auto simp: filter_empty_conv)
  show ?thesis
  proof (cases "v_version_number ` {r \<in> set (basket_versions d). v_basket_id r = basket_id} = {}")
    case True
    then show ?thesis
      unfolding next_version_number_def sql_max_Max e by (simp add: coalesce_def)
  next
    case False
    then show ?thesis
      unfolding next_version_number_def sql_max_Max e s by (auto simp: coalesce_def)
  qed
qed

subsection \<open>What create\_basket\_version does to the file\<close>

lemma create_basket_version_unfold:
  "create_basket_version now now_log s basket_id holdings comment =
     (let vid = next_rowid (seq_basket_versions s) (map v_version_id (basket_versions s)) in
      if \<not> set [''ticker'', ''weight'', ''notes''] \<subseteq> set (h_columns holdings) then (s, Inl KeyError)
      else (case insert_holdings (basket_holdings s) vid (h_rows holdings) of
              None \<Rightarrow> (s, Inl IntegrityError)
            | Some tbl \<Rightarrow>
                (s\<lparr>basket_versions := basket_versions s @ [new_version_row now s basket_id comment],
                   seq_basket_versions := vid,
                   basket_holdings := tbl,
                   audit_log := audit_log s @
                     [\<lparr>a_event_time = now_log, a_event_type = ''basket_version_created'',
                       a_details = ''basket_id='' @ str_int basket_id @ '',version_id='' @ str_int vid\<rparr>]\<rparr>,
                 Inr vid)))"
  by (simp add: create_basket_version_def to_sql_basket_holdings_def log_event_def get_conn_def
      commit_def rollback_def close_def new_version_row_def Let_def split: option.split)

lemma insert_holdings_Some:
  "insert_holdings tbl vid hs = Some tbl' \<Longrightarrow>
     \<exists>new. tbl' = tbl @ new \<and> (\<forall>r\<in>set new. bh_version_id r = vid) \<and> map frame_row new = hs"
proof (induction hs arbitrary: tbl)
  case Nil
  then show ?case by simp
next
  case (Cons h hs)
  from Cons.prems obtain t w where t: "h_ticker h = Some t" and w: "h_weight h = Some w"
    by (auto split: option.splits)
  let ?r = "\<lparr>bh_version_id = vid, bh_ticker = t, bh_weight = w, bh_notes = h_notes h\<rparr>"
  from Cons.prems t w have rest: "insert_holdings (tbl @ [?r]) vid hs = Some tbl'"
    by (simp split: if_splits)
  from Cons.IH [OF rest] obtain new where
    new: "tbl' = (tbl @ [?r]) @ new" "\<forall>r\<in>set new. bh_version_id r = vid" "map frame_row new = hs"
    by blast
  have fr: "frame_row ?r = h"
    by (simp add: frame_row_def t [symmetric] w [symmetric])
  show ?case
    by (rule exI [of _ "?r # new"]) (simp add: new fr)
qed

lemma insert_holdings_distinct:
  "insert_holdings tbl vid hs = Some tbl' \<Longrightarrow>
     distinct (map (\<lambda>r. (bh_version_id r, bh_ticker r)) tbl) \<Longrightarrow>
     distinct (map (\<lambda>r. (bh_version_id r, bh_ticker r)) tbl')"
proof (induction hs arbitrary: tbl)
  case Nil
  then show ?case by simp
next
  case (Cons h hs)
  from Cons.prems(1) obtain t w where t: "h_ticker h = Some t" and w: "h_weight h = Some w"
    by (auto split: option.splits)
  let ?r = "\<lparr>bh_version_id = vid, bh_ticker = t, bh_weight = w, bh_notes = h_notes h\<rparr>"
  from Cons.prems(1) t w have fresh: "\<not> list_ex (\<lambda>x. bh_version_id x = vid \<and> bh_ticker x = t) tbl"
    and rest: "insert_holdings (tbl @ [?r]) vid hs = Some tbl'"
    by (simp_all split: if_splits)
  from fresh have "(vid, t) \<notin> set (map (\<lambda>r. (bh_version_id r, bh_ticker r)) tbl)"
    by (auto simp: list_ex_iff)
  with Cons.prems(2) have "distinct (map (\<lambda>r. (bh_version_id r, bh_ticker r)) (tbl @ [?r]))"
    by simp
  with Cons.IH [OF rest] show ?case .
qed

text \<open>
  Claim C2. Every call of create_basket_version either raises and leaves the file as it
  was (no version row, no holdings row), or returns the new version_id and has appended
  exactly one version row, with that id and the basket's id, and one holdings row with
  that id for every row of the holdings table, in order and with the same ticker, weight
  and notes. In particular a holdings table that lacks one of the columns ticker, weight,
  notes raises KeyError and leaves the file unchanged.
\<close>

theorem create_basket_version_atomic:
  "(case create_basket_version now now_log s basket_id holdings comment of
      (s', Inl e) \<Rightarrow> s' = s
    | (s', Inr vid) \<Rightarrow>
        basket_versions s' = basket_versions s @ [new_version_row now s basket_id comment]
        \<and> v_version_id (new_version_row now s basket_id comment) = vid
        \<and> v_basket_id (new_version_row now s basket_id comment) = basket_id
        \<and> (\<exists>new. basket_holdings s' = basket_holdings s @ new
              \<and> list_all (\<lambda>r. bh_version_id r = vid) new
              \<and> map frame_row new = h_rows holdings))
   \<and> (\<not> set [''ticker'', ''weight'', ''notes''] \<subseteq> set (h_columns holdings) \<longrightarrow>
        create_basket_version now now_log s basket_id holdings comment = (s, Inl KeyError))"
proof (cases "set [''ticker'', ''weight'', ''notes''] \<subseteq> set (h_columns holdings)")
  case False
  then show ?thesis
    by (simp add: create_basket_version_unfold Let_def)
next
  case True
  show ?thesis
  proof (cases "insert_holdings (basket_holdings s)
        (next_rowid (seq_basket_versions s) (map v_version_id (basket_versions s))) (h_rows holdings)")
    case None
    with True show ?thesis
      by (simp add: create_basket_version_unfold Let_def)
  next
    case (Some tbl)
    from insert_holdings_Some [OF Some] obtain new where
      "tbl = basket_holdings s @ new"
      "\<forall>r\<in>set new. bh_version_id r = next_rowid (seq_basket_versions s) (map v_version_id (basket_versions s))"
      "map frame_row new = h_rows holdings"
      by blast
    then have "\<exists>new. tbl = basket_holdings s @ new
        \<and> list_all (\<lambda>r. bh_version_id r = next_rowid (seq_basket_versions s) (map v_version_id (basket_versions s))) new
        \<and> map frame_row new = h_rows holdings"
      by (auto simp: list_all_iff)
    with True Some show ?thesis
      by (simp add: create_basket_version_unfold Let_def new_version_row_def)
  qed
qed

theorem create_basket_version_atomic_witness:
  "create_basket_version ''2024-01-01T00:00:00'' ''2024-01-01T00:00:01'' empty_db 1
      \<lparr>h_columns = [''ticker'', ''weight''],
       h_rows = [\<lparr>h_ticker = Some ''SPY'', h_weight = Some 100, h_notes = None\<rparr>]\<rparr> []
     = (empty_db, Inl KeyError)"
  using create_basket_version_atomic [where now = "''2024-01-01T00:00:00''"
      and now_log = "''2024-01-01T00:00:01''" and s = empty_db and basket_id = 1
      and holdings = "\<lparr>h_columns = [''ticker'', ''weight''],
       h_rows = [\<lparr>h_ticker = Some ''SPY'', h_weight = Some 100, h_notes = None\<rparr>]\<rparr>"
      and comment = "[]"]
  by simp

lemma create_basket_version_Inr:
  assumes "create_basket_version now now_log s basket_id holdings comment = (s', Inr vid)"
  shows "basket_versions s' = basket_versions s @ [new_version_row now s basket_id comment]"
    and "vid = next_rowid (seq_basket_versions s) (map v_version_id (basket_versions s))"
    and "seq_basket_versions s' = vid"
    and "\<exists>new. basket_holdings s' = basket_holdings s @ new
              \<and> (\<forall>r\<in>set new. bh_version_id r = vid) \<and> map frame_row new = h_rows holdings"
    and "insert_holdings (basket_holdings s) vid (h_rows holdings) = Some (basket_holdings s')"
proof -
  from assms have cols: "set [''ticker'', ''weight'', ''notes''] \<subseteq> set (h_columns holdings)"
    by (auto simp: create_basket_version_unfold Let_def split: if_splits)
  let ?vid = "next_rowid (seq_basket_versions s) (map v_version_id (basket_versions s))"
  from assms cols obtain tbl where tbl: "insert_holdings (basket_holdings s) ?vid (h_rows holdings) = Some tbl"
    by (cases "insert_holdings (basket_holdings s) ?vid (h_rows holdings)")
       (auto simp: create_basket_version_unfold Let_def)
  define S where "S = s\<lparr>basket_versions := basket_versions s @ [new_version_row now s basket_id comment],
                   seq_basket_versions := ?vid,
                   basket_holdings := tbl,
                   audit_log := audit_log s @
                     [\<lparr>a_event_time = now_log, a_event_type = ''basket_version_created'',
                       a_details = ''basket_id='' @ str_int basket_id @ '',version_id='' @ str_int ?vid\<rparr>]\<rparr>"
  from cols tbl have eq: "create_basket_version now now_log s basket_id holdings comment = (S, Inr ?vid)"
    by (simp add: create_basket_version_unfold Let_def S_def)
  from assms eq have "(s', Inr vid) = (S, Inr ?vid)"
    by simp
  then have s'S: "s' = S" and v: "vid = ?vid"
    by simp_all
  note s' = s'S [unfolded S_def]
  show "basket_versions s' = basket_versions s @ [new_version_row now s basket_id comment]"
    by (simp add: s')
  show "vid = ?vid" by (rule v)
  show "seq_basket_versions s' = vid" by (simp add: s' v)
  show "insert_holdings (basket_holdings s) vid (h_rows holdings) = Some (basket_holdings s')"
    by (simp add: s' v tbl)
  from insert_holdings_Some [OF tbl]
  show "\<exists>new. basket_holdings s' = basket_holdings s @ new
              \<and> (\<forall>r\<in>set new. bh_version_id r = vid) \<and> map frame_row new = h_rows holdings"
    by (simp add: s' v)
qed

text \<open>
  Claim C1. A successful call of create_basket_version appends one version row whose
  version_number is 1 when the basket has no version yet and otherwise 1 plus the largest
  version_number of the basket. Two successful calls in a row for a basket that had no
  version give the numbers 1 and then 2, and list_versions returns them newest first:
  [1] after the first call, [2, 1] after the second.
\<close>

theorem version_numbers_sequential:
  assumes "create_basket_version now1 log1 s basket_id holdings1 comment1 = (s1, Inr vid1)"
      and "create_basket_version now2 log2 s1 basket_id holdings2 comment2 = (s2, Inr vid2)"
  shows "basket_versions s1 = basket_versions s @ [new_version_row now1 s basket_id comment1]
       \<and> v_version_number (new_version_row now1 s basket_id comment1) =
           (if v_version_number ` {r \<in> set (basket_versions s). v_basket_id r = basket_id} = {} then 1
            else 1 + Max (v_version_number ` {r \<in> set (basket_versions s). v_basket_id r = basket_id}))
       \<and> (v_version_number ` {r \<in> set (basket_versions s). v_basket_id r = basket_id} = {} \<longrightarrow>
            map v_version_number (list_versions s1 basket_id) = [1]
          \<and> map v_version_number (list_versions s2 basket_id) = [2, 1])"
proof (intro conjI impI)
  show bv1: "basket_versions s1 = basket_versions s @ [new_version_row now1 s basket_id comment1]"
    by (rule create_basket_version_Inr(1) [OF assms(1)])
  show "v_version_number (new_version_row now1 s basket_id comment1) =
           (if v_version_number ` {r \<in> set (basket_versions s). v_basket_id r = basket_id} = {} then 1
            else 1 + Max (v_version_number ` {r \<in> set (basket_versions s). v_basket_id r = basket_id}))"
    by (simp only: new_version_row_def version_row.simps next_version_number_eq)
  assume none: "v_version_number ` {r \<in> set (basket_versions s). v_basket_id r = basket_id} = {}"
  then have f0: "filter (\<lambda>r. v_basket_id r = basket_id) (basket_versions s) = []"
    by (auto simp: filter_empty_conv)
  have n1: "v_version_number (new_version_row now1 s basket_id comment1) = 1"
    using none by (simp only: new_version_row_def version_row.simps next_version_number_eq) simp
  have b1: "v_basket_id (new_version_row now1 s basket_id comment1) = basket_id"
    by (simp add: new_version_row_def)
  have f1: "filter (\<lambda>r. v_basket_id r = basket_id) (basket_versions s1) = [new_version_row now1 s basket_id comment1]"
    by (simp add: bv1 f0 b1)
  show "map v_version_number (list_versions s1 basket_id) = [1]"
    by (simp add: list_versions_def f1 n1)
  have bv2: "basket_versions s2 = basket_versions s1 @ [new_version_row now2 s1 basket_id comment2]"
    by (rule create_basket_version_Inr(1) [OF assms(2)])
  have e1: "v_version_number ` {r \<in> set (basket_versions s1). v_basket_id r = basket_id} = {1}"
  proof -
    have "{r \<in> set (basket_versions s1). v_basket_id r = basket_id} = set (filter (\<lambda>r. v_basket_id r = basket_id) (basket_versions s1))"
      by auto
    then show ?thesis by (simp add: f1 n1)
  qed
  have n2: "v_version_number (new_version_row now2 s1 basket_id comment2) = 2"
    by (simp only: new_version_row_def version_row.simps next_version_number_eq e1) simp
  have b2: "v_basket_id (new_version_row now2 s1 basket_id comment2) = basket_id"
    by (simp add: new_version_row_def)
  have f2: "filter (\<lambda>r. v_basket_id r = basket_id) (basket_versions s2) =
      [new_version_row now1 s basket_id comment1, new_version_row now2 s1 basket_id comment2]"
    by (simp add: bv2 f1 b2)
  show "map v_version_number (list_versions s2 basket_id) = [2, 1]"
    by (simp add: list_versions_def f2 n1 n2)
qed

theorem version_numbers_sequential_witness:
  "map v_version_number (list_versions
      (fst (create_basket_version ''t2'' ''t3''
         (fst (create_basket_version ''t0'' ''t1'' empty_db 7
            \<lparr>h_columns = [''ticker'', ''weight'', ''notes''],
             h_rows = [\<lparr>h_ticker = Some ''SPY'', h_weight = Some 100, h_notes = None\<rparr>]\<rparr> ''first''))
         7
         \<lparr>h_columns = [''ticker'', ''weight'', ''notes''],
          h_rows = [\<lparr>h_ticker = Some ''SPY'', h_weight = Some 60, h_notes = None\<rparr>,
                    \<lparr>h_ticker = Some ''AGG'', h_weight = Some 40, h_notes = None\<rparr>]\<rparr> ''second''))
      7) = [2, 1]"
proof -
  let ?h1 = "\<lparr>h_columns = [''ticker'', ''weight'', ''notes''],
             h_rows = [\<lparr>h_ticker = Some ''SPY'', h_weight = Some 100, h_notes = None\<rparr>]\<rparr>"
  let ?h2 = "\<lparr>h_columns = [''ticker'', ''weight'', ''notes''],
          h_rows = [\<lparr>h_ticker = Some ''SPY'', h_weight = Some 60, h_notes = None\<rparr>,
                    \<lparr>h_ticker = Some ''AGG'', h_weight = Some 40, h_notes = None\<rparr>]\<rparr>"
  let ?s1 = "fst (create_basket_version ''t0'' ''t1'' empty_db 7 ?h1 ''first'')"
  let ?s2 = "fst (create_basket_version ''t2'' ''t3'' ?s1 7 ?h2 ''second'')"
  have r1: "snd (create_basket_version ''t0'' ''t1'' empty_db 7 ?h1 ''first'') = Inr 1"
    by (simp add: create_basket_version_unfold Let_def empty_db_def next_rowid_def)
  have r2: "snd (create_basket_version ''t2'' ''t3'' ?s1 7 ?h2 ''second'') = Inr 2"
    by (simp add: create_basket_version_unfold Let_def empty_db_def next_rowid_def new_version_row_def)
  have c1: "create_basket_version ''t0'' ''t1'' empty_db 7 ?h1 ''first'' = (?s1, Inr 1)"
    using r1 by (simp add: prod_eq_iff)
  have c2: "create_basket_version ''t2'' ''t3'' ?s1 7 ?h2 ''second'' = (?s2, Inr 2)"
    using r2 by (simp add: prod_eq_iff)
  have none: "v_version_number ` {r \<in> set (basket_versions empty_db). v_basket_id r = 7} = {}"
    by (simp add: empty_db_def)
  from version_numbers_sequential [OF c1 c2] none show ?thesis
    by blast
qed

subsection \<open>Operations that do not touch versions\<close>

lemma store_ok_versions_part:
  "versions_part s' = versions_part s \<Longrightarrow> store_ok s' = store_ok s"
  by (simp add: versions_part_def store_ok_def)

lemma grows_refl_part:
  "versions_part s' = versions_part s \<Longrightarrow> grows s s'"
  by (simp add: versions_part_def grows_def)

lemma grows_trans:
  assumes "grows s s'" and "grows s' s''"
  shows "grows s s''"
proof -
  from assms(1) obtain vs hs where 1: "basket_versions s' = basket_versions s @ vs"
    "basket_holdings s' = basket_holdings s @ hs"
    "\<forall>r\<in>set vs. seq_basket_versions s < v_version_id r"
    "\<forall>r\<in>set hs. seq_basket_versions s < bh_version_id r"
    "seq_basket_versions s \<le> seq_basket_versions s'"
    unfolding grows_def by blast
  from assms(2) obtain vs' hs' where 2: "basket_versions s'' = basket_versions s' @ vs'"
    "basket_holdings s'' = basket_holdings s' @ hs'"
    "\<forall>r\<in>set vs'. seq_basket_versions s' < v_version_id r"
    "\<forall>r\<in>set hs'. seq_basket_versions s' < bh_version_id r"
    "seq_basket_versions s' \<le> seq_basket_versions s''"
    unfolding grows_def by blast
  have a: "basket_versions s'' = basket_versions s @ (vs @ vs')"
    by (simp add: 1 2)
  have b: "basket_holdings s'' = basket_holdings s @ (hs @ hs')"
    by (simp add: 1 2)
  have c: "\<forall>r\<in>set (vs @ vs'). seq_basket_versions s < v_version_id r"
    using 1(3,5) 2(3) by force
  have d: "\<forall>r\<in>set (hs @ hs'). seq_basket_versions s < bh_version_id r"
    using 1(4,5) 2(4) by force
  have e: "seq_basket_versions s \<le> seq_basket_versions s''"
    using 1(5) 2(5) by simp
  show ?thesis
    unfolding grows_def using a b c d e by blast
qed

lemma versions_part_init_db: "versions_part (init_db s) = versions_part s"
  by (simp add: init_db_def get_conn_def commit_def close_def)

lemma versions_part_log_event: "versions_part (log_event now event_type details s) = versions_part s"
  by (simp add: log_event_def get_conn_def commit_def close_def versions_part_def Let_def)

lemma versions_part_save_constraints:
  "versions_part (save_constraints s basket_id max_single_name max_asset_class) = versions_part s"
  by (simp add: save_constraints_def get_conn_def commit_def close_def versions_part_def Let_def)

lemma versions_part_create_basket:
  "versions_part (fst (create_basket now now_log s name description usid allow_short max_holdings))
     = versions_part s"
  by (simp add: create_basket_def get_conn_def commit_def close_def versions_part_def Let_def
      versions_part_log_event [unfolded versions_part_def, simplified])

lemma versions_part_create_universe_snapshot:
  "versions_part (fst (create_universe_snapshot now now_log s df source note)) = versions_part s"
proof (cases "''eligible'' \<in> set (u_columns df)")
  case False
  then show ?thesis
    by (simp add: create_universe_snapshot_def get_conn_def close_def versions_part_def Let_def)
next
  case True
  show ?thesis
  proof (cases "insert_instruments (universe_instruments s) (u_columns df)
      (next_rowid (seq_universe_snapshots s) (map s_snapshot_id (universe_snapshots s))) (u_rows df)")
    case None
    with True show ?thesis
      by (simp add: create_universe_snapshot_def to_sql_universe_instruments_def get_conn_def
          rollback_def close_def versions_part_def Let_def)
  next
    case (Some tbl)
    with True show ?thesis
      by (simp add: create_universe_snapshot_def to_sql_universe_instruments_def get_conn_def
          commit_def close_def versions_part_def Let_def
          versions_part_log_event [unfolded versions_part_def, simplified])
  qed
qed

subsection \<open>Every operation but reset\_db only adds versions\<close>

lemma create_basket_version_Inl:
  assumes "create_basket_version now now_log s basket_id holdings comment = (s', Inl e)"
  shows "s' = s"
  using assms
  by (auto simp: create_basket_version_unfold Let_def split: if_splits option.splits)

lemma create_basket_version_step:
  assumes ok: "store_ok s"
  shows "grows s (fst (create_basket_version now now_log s basket_id holdings comment))
       \<and> store_ok (fst (create_basket_version now now_log s basket_id holdings comment))"
proof -
  obtain s' r where res: "create_basket_version now now_log s basket_id holdings comment = (s', r)"
    by (cases "create_basket_version now now_log s basket_id holdings comment")
  show ?thesis
  proof (cases r)
    case (Inl e)
    with res have "s' = s" by (simp add: create_basket_version_Inl)
    with res ok show ?thesis
      by (simp add: grows_refl_part)
  next
    case (Inr vid)
    with res have c: "create_basket_version now now_log s basket_id holdings comment = (s', Inr vid)"
      by simp
    note f = create_basket_version_Inr [OF c]
    from f(4) obtain new where new: "basket_holdings s' = basket_holdings s @ new"
      "\<forall>r\<in>set new. bh_version_id r = vid"
      by blast
    have gt: "seq_basket_versions s < vid"
      unfolding f(2) by (rule next_rowid_gt_seq)
    have vrow: "v_version_id (new_version_row now s basket_id comment) = vid"
      by (simp add: new_version_row_def f(2))
    have g: "grows s s'"
      unfolding grows_def
    proof (intro conjI exI [of _ "[new_version_row now s basket_id comment]"] exI [of _ new])
      show "basket_versions s' = basket_versions s @ [new_version_row now s basket_id comment]"
        by (rule f(1))
      show "basket_holdings s' = basket_holdings s @ new" by (rule new(1))
      show "\<forall>r\<in>set [new_version_row now s basket_id comment]. seq_basket_versions s < v_version_id r"
        using gt vrow by simp
      show "\<forall>r\<in>set new. seq_basket_versions s < bh_version_id r"
        using gt new(2) by simp
      show "seq_basket_versions s \<le> seq_basket_versions s'"
        using gt f(3) by simp
    qed
    from ok have o1: "\<forall>r\<in>set (basket_versions s). v_version_id r \<le> seq_basket_versions s"
      and o2: "\<forall>r\<in>set (basket_holdings s). bh_version_id r \<le> seq_basket_versions s"
      and o3: "distinct (map (\<lambda>r. (bh_version_id r, bh_ticker r)) (basket_holdings s))"
      by (simp_all add: store_ok_def)
    have k1: "\<forall>r\<in>set (basket_versions s'). v_version_id r \<le> seq_basket_versions s'"
    proof
      fix r assume "r \<in> set (basket_versions s')"
      then have "r \<in> set (basket_versions s) \<or> r = new_version_row now s basket_id comment"
        by (auto simp: f(1))
      then show "v_version_id r \<le> seq_basket_versions s'"
        using o1 gt vrow f(3) by force
    qed
    have k2: "\<forall>r\<in>set (basket_holdings s'). bh_version_id r \<le> seq_basket_versions s'"
    proof
      fix r assume "r \<in> set (basket_holdings s')"
      then have "r \<in> set (basket_holdings s) \<or> r \<in> set new"
        by (auto simp: new(1))
      then show "bh_version_id r \<le> seq_basket_versions s'"
        using o2 gt new(2) f(3) by force
    qed
    have k3: "distinct (map (\<lambda>r. (bh_version_id r, bh_ticker r)) (basket_holdings s'))"
      by (rule insert_holdings_distinct [OF f(5) o3])
    have "store_ok s'"
      unfolding store_ok_def using k1 k2 k3 by blast
    with g res show ?thesis by simp
  qed
qed

lemma unchanged_step:
  assumes "store_ok s" and "versions_part s' = versions_part s"
  shows "grows s s' \<and> store_ok s'"
  using assms store_ok_versions_part [OF assms(2)] grows_refl_part [OF assms(2)]
  by blast

lemma apply_op_step:
  assumes "store_ok s" and "op \<noteq> Reset_db"
  shows "grows s (apply_op op s) \<and> store_ok (apply_op op s)"
proof (cases op)
  case Init_db
  show ?thesis
    unfolding Init_db apply_op.simps
    by (rule unchanged_step [OF assms(1) versions_part_init_db])
next
  case (Log_event now event_type details)
  show ?thesis
    unfolding Log_event apply_op.simps
    by (rule unchanged_step [OF assms(1) versions_part_log_event])
next
  case (Create_universe_snapshot now now_log df source memo)
  show ?thesis
    unfolding Create_universe_snapshot apply_op.simps
    by (rule unchanged_step [OF assms(1) versions_part_create_universe_snapshot])
next
  case List_universe_snapshots
  show ?thesis
    unfolding List_universe_snapshots apply_op.simps
    by (rule unchanged_step [OF assms(1) refl])
next
  case (Get_universe snapshot_id)
  show ?thesis
    unfolding Get_universe apply_op.simps
    by (rule unchanged_step [OF assms(1) refl])
next
  case (Create_basket now now_log name description usid allow_short max_holdings)
  show ?thesis
    unfolding Create_basket apply_op.simps
    by (rule unchanged_step [OF assms(1) versions_part_create_basket])
next
  case List_baskets
  show ?thesis
    unfolding List_baskets apply_op.simps
    by (rule unchanged_step [OF assms(1) refl])
next
  case (Create_basket_version now now_log basket_id holdings comment)
  show ?thesis
    unfolding Create_basket_version apply_op.simps
    by (rule create_basket_version_step [OF assms(1)])
next
  case (List_versions basket_id)
  show ?thesis
    unfolding List_versions apply_op.simps
    by (rule unchanged_step [OF assms(1) refl])
next
  case (Get_holdings version_id)
  show ?thesis
    unfolding Get_holdings apply_op.simps
    by (rule unchanged_step [OF assms(1) refl])
next
  case (Save_constraints basket_id max_single_name max_asset_class)
  show ?thesis
    unfolding Save_constraints apply_op.simps
    by (rule unchanged_step [OF assms(1) versions_part_save_constraints])
next
  case (Get_constraints basket_id)
  show ?thesis
    unfolding Get_constraints apply_op.simps
    by (rule unchanged_step [OF assms(1) refl])
next
  case Reset_db
  with assms(2) show ?thesis by simp
qed

lemma store_ok_reset_db: "store_ok s \<Longrightarrow> store_ok (reset_db s)"
  by (simp add: reset_db_def get_conn_def commit_def close_def store_ok_def Let_def)

lemma store_ok_apply_op:
  assumes "store_ok s"
  shows "store_ok (apply_op op s)"
proof (cases "op = Reset_db")
  case True
  with assms show ?thesis by (simp add: store_ok_reset_db)
next
  case False
  from apply_op_step [OF assms False] show ?thesis by blast
qed

lemma store_ok_run_ops: "store_ok s \<Longrightarrow> store_ok (run_ops ops s)"
  unfolding run_ops_def
  by (induction ops arbitrary: s) (simp_all add: store_ok_apply_op)

lemma store_ok_empty_db: "store_ok empty_db"
  by (simp add: store_ok_def empty_db_def)

lemma run_ops_grows:
  "store_ok s \<Longrightarrow> Reset_db \<notin> set ops \<Longrightarrow> grows s (run_ops ops s)"
  unfolding run_ops_def
proof (induction ops arbitrary: s)
  case Nil
  show ?case by (simp add: grows_refl_part)
next
  case (Cons op ops)
  from Cons.prems have ne: "op \<noteq> Reset_db" and rest: "Reset_db \<notin> set ops" by auto
  from apply_op_step [OF Cons.prems(1) ne]
  have g: "grows s (apply_op op s)" and o: "store_ok (apply_op op s)" by simp_all
  from Cons.IH [OF o rest] have "grows (apply_op op s) (fold apply_op ops (apply_op op s))" .
  with g show ?case by (simp add: grows_trans)
qed

subsection \<open>Reads after added versions\<close>

lemma get_holdings_grows:
  assumes "grows s s'" and "vid \<le> seq_basket_versions s"
  shows "get_holdings s' vid = get_holdings s vid"
proof -
  from assms(1) obtain hs where hs: "basket_holdings s' = basket_holdings s @ hs"
    "\<forall>r\<in>set hs. seq_basket_versions s < bh_version_id r"
    unfolding grows_def by blast
  have "filter (\<lambda>r. bh_version_id r = vid) hs = []"
    using hs(2) assms(2) by (auto simp: filter_empty_conv)
  then show ?thesis
    by (simp add: get_holdings_def get_holdings_rows_def hs(1))
qed

lemma list_versions_grows:
  assumes "grows s s'" and "store_ok s"
  shows "filter (\<lambda>r. r \<in> set (basket_versions s)) (list_versions s' basket_id) = list_versions s basket_id"
proof -
  from assms(1) obtain vs where vs: "basket_versions s' = basket_versions s @ vs"
    "\<forall>r\<in>set vs. seq_basket_versions s < v_version_id r"
    unfolding grows_def by blast
  from assms(2) have old: "\<forall>r\<in>set (basket_versions s). v_version_id r \<le> seq_basket_versions s"
    by (simp add: store_ok_def)
  have new: "filter (\<lambda>r. r \<in> set (basket_versions s)) vs = []"
    using vs(2) old by (fastforce simp: filter_empty_conv)
  have keep: "filter (\<lambda>r. r \<in> set (basket_versions s)) (basket_versions s) = basket_versions s"
    by simp
  have "filter (\<lambda>r. r \<in> set (basket_versions s)) (filter (\<lambda>r. v_basket_id r = basket_id) (basket_versions s'))
      = filter (\<lambda>r. v_basket_id r = basket_id) (filter (\<lambda>r. r \<in> set (basket_versions s)) (basket_versions s'))"
    by (simp add: conj_commute)
  also have "\<dots> = filter (\<lambda>r. v_basket_id r = basket_id) (basket_versions s)"
    by (simp only: vs(1) filter_append new keep append_Nil2)
  finally show ?thesis
    by (simp add: list_versions_def filter_sort)
qed

text \<open>
  Claim C3, as the code has it. reset_db is an operation of the storage layer and deletes
  every row of basket_versions and basket_holdings, so the claim fails as stated: after a
  version is created and reset_db is called, get_holdings and list_versions return
  nothing for it.
\<close>

theorem reset_db_deletes_versions:
  "map v_version_id (list_versions (run_ops
       [Create_basket_version ''t0'' ''t1'' 7
          \<lparr>h_columns = [''ticker'', ''weight'', ''notes''],
           h_rows = [\<lparr>h_ticker = Some ''SPY'', h_weight = Some 100, h_notes = None\<rparr>]\<rparr> ''first'']
       empty_db) 7) = [1]
   \<and> h_rows (get_holdings (run_ops
       [Create_basket_version ''t0'' ''t1'' 7
          \<lparr>h_columns = [''ticker'', ''weight'', ''notes''],
           h_rows = [\<lparr>h_ticker = Some ''SPY'', h_weight = Some 100, h_notes = None\<rparr>]\<rparr> ''first'']
       empty_db) 1) = [\<lparr>h_ticker = Some ''SPY'', h_weight = Some 100, h_notes = None\<rparr>]
   \<and> list_versions (run_ops
       [Create_basket_version ''t0'' ''t1'' 7
          \<lparr>h_columns = [''ticker'', ''weight'', ''notes''],
           h_rows = [\<lparr>h_ticker = Some ''SPY'', h_weight = Some 100, h_notes = None\<rparr>]\<rparr> ''first'',
        Reset_db]
       empty_db) 7 = []
   \<and> h_rows (get_holdings (run_ops
       [Create_basket_version ''t0'' ''t1'' 7
          \<lparr>h_columns = [''ticker'', ''weight'', ''notes''],
           h_rows = [\<lparr>h_ticker = Some ''SPY'', h_weight = Some 100, h_notes = None\<rparr>]\<rparr> ''first'',
        Reset_db]
       empty_db) 1) = []"
  by (simp add: run_ops_def create_basket_version_unfold Let_def empty_db_def next_rowid_def
      new_version_row_def list_versions_def get_holdings_def get_holdings_rows_def frame_row_def
      reset_db_def get_conn_def commit_def close_def)

text \<open>
  Claim C3, amended. Take the file reached from the empty one by any operations of the
  storage layer, and let any further operations run that do not include reset_db. Then
  basket_versions and basket_holdings have only grown by rows appended after the old ones
  (no row was updated or deleted), get_holdings returns for every version of the earlier
  file exactly what it returned before, and list_versions returns the earlier versions of
  every basket unchanged and in the same order (new versions, if any, apart).
\<close>

theorem versions_immutable_without_reset:
  assumes "Reset_db \<notin> set later"
  shows "prefix (basket_versions (run_ops earlier empty_db))
                (basket_versions (run_ops (earlier @ later) empty_db))
       \<and> prefix (basket_holdings (run_ops earlier empty_db))
                (basket_holdings (run_ops (earlier @ later) empty_db))
       \<and> (\<forall>r\<in>set (basket_versions (run_ops earlier empty_db)).
            get_holdings (run_ops (earlier @ later) empty_db) (v_version_id r)
              = get_holdings (run_ops earlier empty_db) (v_version_id r))
       \<and> (\<forall>basket_id.
            filter (\<lambda>r. r \<in> set (basket_versions (run_ops earlier empty_db)))
                   (list_versions (run_ops (earlier @ later) empty_db) basket_id)
              = list_versions (run_ops earlier empty_db) basket_id)"
proof -
  define s where "s = run_ops earlier empty_db"
  define s' where "s' = run_ops (earlier @ later) empty_db"
  have s': "s' = run_ops later s"
    by (simp add: s'_def s_def run_ops_def)
  have ok: "store_ok s"
    unfolding s_def by (rule store_ok_run_ops [OF store_ok_empty_db])
  have g: "grows s s'"
    unfolding s' by (rule run_ops_grows [OF ok assms])
  from g have p1: "prefix (basket_versions s) (basket_versions s')"
    and p2: "prefix (basket_holdings s) (basket_holdings s')"
    unfolding grows_def prefix_def by blast+
  have p3: "\<forall>r\<in>set (basket_versions s). get_holdings s' (v_version_id r) = get_holdings s (v_version_id r)"
  proof
    fix r assume "r \<in> set (basket_versions s)"
    with ok have "v_version_id r \<le> seq_basket_versions s"
      by (simp add: store_ok_def)
    then show "get_holdings s' (v_version_id r) = get_holdings s (v_version_id r)"
      by (rule get_holdings_grows [OF g])
  qed
  have p4: "\<forall>basket_id. filter (\<lambda>r. r \<in> set (basket_versions s)) (list_versions s' basket_id)
              = list_versions s basket_id"
    using list_versions_grows [OF g ok] by blast
  from p1 p2 p3 p4 show ?thesis
    unfolding s_def s'_def by blast
qed

theorem versions_immutable_without_reset_witness:
  "Reset_db \<notin> set [Create_basket_version ''t2'' ''t3'' 7
          \<lparr>h_columns = [''ticker'', ''weight'', ''notes''],
           h_rows = [\<lparr>h_ticker = Some ''AGG'', h_weight = Some 100, h_notes = None\<rparr>]\<rparr> ''second'',
        Save_constraints 7 25 60]
   \<and> get_holdings (run_ops
       ([Create_basket_version ''t0'' ''t1'' 7
          \<lparr>h_columns = [''ticker'', ''weight'', ''notes''],
           h_rows = [\<lparr>h_ticker = Some ''SPY'', h_weight = Some 100, h_notes = None\<rparr>]\<rparr> ''first'']
        @ [Create_basket_version ''t2'' ''t3'' 7
          \<lparr>h_columns = [''ticker'', ''weight'', ''notes''],
           h_rows = [\<lparr>h_ticker = Some ''AGG'', h_weight = Some 100, h_notes = None\<rparr>]\<rparr> ''second'',
           Save_constraints 7 25 60])
       empty_db) 1
     = get_holdings (run_ops
       [Create_basket_version ''t0'' ''t1'' 7
          \<lparr>h_columns = [''ticker'', ''weight'', ''notes''],
           h_rows = [\<lparr>h_ticker = Some ''SPY'', h_weight = Some 100, h_notes = None\<rparr>]\<rparr> ''first'']
       empty_db) 1"
proof -
  let ?earlier = "[Create_basket_version ''t0'' ''t1'' 7
          \<lparr>h_columns = [''ticker'', ''weight'', ''notes''],
           h_rows = [\<lparr>h_ticker = Some ''SPY'', h_weight = Some 100, h_notes = None\<rparr>]\<rparr> ''first'']"
  let ?later = "[Create_basket_version ''t2'' ''t3'' 7
          \<lparr>h_columns = [''ticker'', ''weight'', ''notes''],
           h_rows = [\<lparr>h_ticker = Some ''AGG'', h_weight = Some 100, h_notes = None\<rparr>]\<rparr> ''second'',
        Save_constraints 7 25 60]"
  have nr: "Reset_db \<notin> set ?later" by simp
  have "map v_version_id (basket_versions (run_ops ?earlier empty_db)) = [1]"
    by (simp add: run_ops_def create_basket_version_unfold Let_def empty_db_def next_rowid_def
        new_version_row_def)
  then obtain r where r: "r \<in> set (basket_versions (run_ops ?earlier empty_db))" "v_version_id r = 1"
    by (cases "basket_versions (run_ops ?earlier empty_db)") auto
  from versions_immutable_without_reset [OF nr, of ?earlier] r
  have "get_holdings (run_ops (?earlier @ ?later) empty_db) 1 = get_holdings (run_ops ?earlier empty_db) 1"
    by metis
  with nr show ?thesis by blast
qed

section \<open>Export and import of a basket version\<close>






section \<open>Properties of composite\_signal\<close>







lemma composite_signal_rows:
  assumes "p_rows t \<noteq> []"
  shows "composite_signal t =
     Inr (sort_key (\<lambda>r. desc_key (g_score r)) (map (signal_of t) [0 ..< length (p_columns t)]))"
proof -
  have z: "zip (map f js) (map g js) = map (\<lambda>j. (f j, g j)) js" for f :: "nat \<Rightarrow> 'a" and g :: "nat \<Rightarrow> 'b" and js
    by (induction js) simp_all
  have s: "signal_of t = (\<lambda>j. make_signal_row
      ((p_columns t ! j, mom_12_1_of (column t j), mom_6m_of (column t j)),
       (p_columns t ! j, trend_of (column t j))))"
    by (rule ext) (simp add: signal_of_def)
  show ?thesis
    using assms
    by (simp add: composite_signal_def momentum_signal_def trend_signal_def z s comp_def)
qed




text \<open>
  Claim C10. On a price table without rows composite_signal raises IndexError (from the
  \<open>.iloc[-1]\<close> of momentum_signal; trend_signal would raise the same), whatever its
  columns are; and it raises exactly on such tables: with at least one row it returns.
  Nothing in the function guards the empty table, so callers have to.
\<close>

theorem composite_signal_empty_raises:
  "composite_signal \<lparr>p_columns = cols, p_rows = []\<rparr> = Inl IndexError
   \<and> momentum_signal \<lparr>p_columns = cols, p_rows = []\<rparr> = Inl IndexError
   \<and> trend_signal \<lparr>p_columns = cols, p_rows = []\<rparr> = Inl IndexError
   \<and> ((\<exists>e. composite_signal t = Inl e) \<longleftrightarrow> p_rows t = [])"
proof -
  have "(\<exists>e. composite_signal t = Inl e) \<longleftrightarrow> p_rows t = []"
  proof (cases "p_rows t = []")
    case True
    then show ?thesis
      by (simp add: composite_signal_def momentum_signal_def)
  next
    case False
    then show ?thesis
      by (simp add: composite_signal_rows)
  qed
  then show ?thesis
    by (simp add: composite_signal_def momentum_signal_def trend_signal_def)
qed

theorem composite_signal_empty_raises_witness:
  "composite_signal \<lparr>p_columns = [''SPY'', ''AGG''], p_rows = []\<rparr> = Inl IndexError"
  using composite_signal_empty_raises [of "[''SPY'', ''AGG'']"]
  by simp

section \<open>Properties of suggest\_reweight\<close>
















end
